theory Spec2Isabelle
  imports Main
begin

section \<open>JavaScript values and strings\<close>

text \<open>
  Objects are association lists in enumeration order, \<open>undefined\<close> is \<open>None\<close> of an
  option, dates are milliseconds since the epoch. Strings are byte strings: \<open>trim\<close> and
  \<open>toLowerCase\<close> are the ASCII parts of the JavaScript functions of the same name.
\<close>

datatype jsval =
    JNull
  | JBool bool
  | JNum int
  | JStr string
  | JDate int
  | JArr "jsval list"
  | JObj "(string \<times> jsval) list"

type_synonym obj = "(string \<times> jsval) list"


text \<open>Writing a key of an object literal: an existing key keeps its place, a new one goes last.\<close>

fun obj_set :: "string \<Rightarrow> jsval \<Rightarrow> obj \<Rightarrow> obj" where
  "obj_set k v [] = [(k, v)]"
| "obj_set k v (p # ps) = (if fst p = k then (k, v) # ps else p # obj_set k v ps)"






text \<open>Decimal rendering of a number inside a template string.\<close>

definition digit_char :: "nat \<Rightarrow> char" where
  "digit_char d = char_of (48 + d)"

function show_nat :: "nat \<Rightarrow> string" where
  "show_nat n = (if n < 10 then [digit_char n] else show_nat (n div 10) @ [digit_char (n mod 10)])"
  by pat_completeness auto
termination
  by (relation "measure (\<lambda>n. n)") auto

declare show_nat.simps [simp del]


definition read_nat :: "string \<Rightarrow> nat" where
  "read_nat s = foldl (\<lambda>a c. 10 * a + ((of_char c :: nat) - 48)) 0 s"


section \<open>Webhook action form: \<open>WebhookActionHandler\<close>\<close>

record HeaderPair =
  hp_name :: string
  hp_value :: string
  hp_displayValue :: string
  hp_isSecret :: bool
  hp_wasSecret :: bool




subsection \<open>\<open>validateFormData\<close>\<close>














subsection \<open>\<open>parseHeaders\<close>\<close>

record header_obj =
  ho_secret :: bool
  ho_value :: string

text \<open>
  The part of a webhook action's configuration the handler reads. \<open>displayHeaders\<close> is
  the list of its entries in the order \<open>Object.entries\<close> yields them; an absent key is
  \<open>None\<close>.
\<close>

record action_config =
  cfg_url :: "string option"
  cfg_displayHeaders :: "(string \<times> header_obj) list option"
  cfg_apiVersion :: "(string \<times> string) list option"

record ActionDomain =
  act_id :: string
  act_type :: string
  act_config :: "action_config option"

record AutomationDomain =
  au_id :: string
  au_name :: string
  au_action :: "ActionDomain option"

definition header_pair_of :: "string \<times> header_obj \<Rightarrow> HeaderPair" where
  "header_pair_of entry =
     (case entry of (name, headerObj) \<Rightarrow>
        \<lparr> hp_name = name,
          hp_value = (if ho_secret headerObj then [] else ho_value headerObj),
          hp_displayValue = ho_value headerObj,
          hp_isSecret = ho_secret headerObj,
          hp_wasSecret = ho_secret headerObj \<rparr>)"

text \<open>
  The callback of \<open>map\<close> reads two fields that every entry of the declared type has, so
  the \<open>catch\<close> branch of the source is never taken on a typed configuration.
\<close>

definition parseHeaders :: "AutomationDomain option \<Rightarrow> HeaderPair list" where
  "parseHeaders automation =
     (case automation of
        None \<Rightarrow> []
      | Some a \<Rightarrow>
          (case au_action a of
             None \<Rightarrow> []
           | Some act \<Rightarrow>
               if act_type act = ''WEBHOOK'' then
                 (case act_config act of
                    None \<Rightarrow> []
                  | Some config \<Rightarrow>
                      (case cfg_displayHeaders config of
                         None \<Rightarrow> []
                       | Some displayHeaders \<Rightarrow> map header_pair_of displayHeaders))
               else []))"

section \<open>Dataset columns offered to automations\<close>

record ColumnDefinition =
  col_id :: string
  col_name :: string
  col_type :: string
  col_internal :: string

definition datasetsTableCols :: "ColumnDefinition list" where
  "datasetsTableCols =
     [\<lparr> col_id = ''name'', col_name = ''Name'', col_type = ''string'',
        col_internal = ''d.'' @ [CHR 0x22] @ ''name'' @ [CHR 0x22] \<rparr>]"

definition datasetActionFilterOptions :: "ColumnDefinition list" where
  "datasetActionFilterOptions = filter (\<lambda>col. col_id col = ''name'') datasetsTableCols"

section \<open>Domain data of the change pipeline\<close>

record DatasetDomain =
  ds_id :: string
  ds_name :: string
  ds_projectId :: string
  ds_description :: "string option"
  ds_metadata :: jsval
  ds_remoteExperimentUrl :: "string option"
  ds_remoteExperimentPayload :: jsval
  ds_inputSchema :: jsval
  ds_expectedOutputSchema :: jsval
  ds_itemsUpdatedAt :: "int option"
  ds_createdAt :: int
  ds_updatedAt :: int

definition nullable :: "('a \<Rightarrow> jsval) \<Rightarrow> 'a option \<Rightarrow> jsval" where
  "nullable f x = (case x of None \<Rightarrow> JNull | Some v \<Rightarrow> f v)"

text \<open>The own properties of a dataset, as the spread \<open>...datasetData\<close> copies them.\<close>

definition dataset_obj :: "DatasetDomain \<Rightarrow> obj" where
  "dataset_obj d =
     [(''id'', JStr (ds_id d)),
      (''name'', JStr (ds_name d)),
      (''projectId'', JStr (ds_projectId d)),
      (''description'', nullable JStr (ds_description d)),
      (''metadata'', ds_metadata d),
      (''remoteExperimentUrl'', nullable JStr (ds_remoteExperimentUrl d)),
      (''remoteExperimentPayload'', ds_remoteExperimentPayload d),
      (''inputSchema'', ds_inputSchema d),
      (''expectedOutputSchema'', ds_expectedOutputSchema d),
      (''itemsUpdatedAt'', nullable JDate (ds_itemsUpdatedAt d)),
      (''createdAt'', JDate (ds_createdAt d)),
      (''updatedAt'', JDate (ds_updatedAt d))]"

datatype TriggerEventSource = Dataset | Prompt

datatype JobConfigState = ACTIVE | INACTIVE

text \<open>
  The enumerations are declared outside these files. Of the execution status only
  \<open>PENDING\<close> occurs in them; the terminal states are the two the specification names.
  The action kinds are the three of the specification.
\<close>

datatype ActionExecutionStatus = PENDING | SUCCESS | ERROR

datatype TriggerEventAction = Created | Updated | Deleted

definition action_string :: "TriggerEventAction \<Rightarrow> string" where
  "action_string a = (case a of Created \<Rightarrow> ''created'' | Updated \<Rightarrow> ''updated'' | Deleted \<Rightarrow> ''deleted'')"

datatype QueueName = WebhookQueue | EntityChangeQueue

datatype QueueJobs = WebhookJob | EntityChangeJob

datatype filter_operator = OpEquals | OpNotEquals | OpContains

record filter_condition =
  fc_column :: string
  fc_operator :: filter_operator
  fc_value :: jsval

record TriggerConfiguration =
  tr_id :: string
  tr_projectId :: string
  tr_filter :: "filter_condition list"
  tr_actionIds :: "string list"

text \<open>The dataset member of \<open>EntityChangeEventType\<close>, the processor's input.\<close>

record dataset_event =
  ev_projectId :: string
  ev_datasetId :: string
  ev_action :: string
  ev_dataset :: DatasetDomain

text \<open>\<open>eventData\<close> is \<open>{ ...event.dataset, action: event.action }\<close>.\<close>

record eventData =
  ed_dataset :: DatasetDomain
  ed_action :: string

record execution_record =
  ex_id :: string
  ex_projectId :: string
  ex_automationId :: string
  ex_triggerId :: string
  ex_actionId :: string
  ex_status :: ActionExecutionStatus
  ex_sourceId :: string
  ex_input :: obj

record 'p queue_job =
  job_timestamp :: int
  job_id :: string
  job_payload :: 'p
  job_name :: QueueJobs

record webhook_payload =
  wp_projectId :: string
  wp_automationId :: string
  wp_executionId :: string
  wp_payload :: obj

record entity_change_payload =
  ec_entityType :: string
  ec_projectId :: string
  ec_datasetId :: string
  ec_action :: TriggerEventAction
  ec_dataset :: obj

section \<open>Effects, failures and the world\<close>

datatype error = InternalServerError string | Failure string

datatype log_level = LInfo | LDebug | LError

text \<open>
  Every call that leaves the process is an entry of the trace, in the order the calls
  happen. A read is recorded when it is made; a write (a created execution, an added job)
  is recorded when it succeeded.
\<close>

datatype effect =
    Logged log_level string obj
  | CalledGetTriggerConfigurations string TriggerEventSource JobConfigState
  | CalledGetActionById string string
  | CalledGetAutomations string string
  | CreatedExecution execution_record
  | AddedWebhookJob QueueName "webhook_payload queue_job"
  | CalledListDatasetVersions string string
  | AddedEntityChange QueueName "entity_change_payload queue_job"

record world =
  trace :: "effect list"
  uuids :: nat

type_synonym 'a io = "world \<Rightarrow> (error + 'a) \<times> world"

text \<open>
  The collaborators that are imported from outside these files: the stores, the queues,
  the filter service, the clock, the identifier generator, the schema parser. Each may
  answer differently at each call (it sees the world so far) and may fail. \<open>v4 n\<close> is
  the identifier the \<open>n\<close>-th call of \<open>v4()\<close> returns.
\<close>

record services =
  getTriggerConfigurations ::
    "world \<Rightarrow> string \<Rightarrow> TriggerEventSource \<Rightarrow> JobConfigState \<Rightarrow> error + TriggerConfiguration list"
  evaluateFilter ::
    "eventData \<Rightarrow> filter_condition list \<Rightarrow> (eventData \<Rightarrow> string \<Rightarrow> jsval option) \<Rightarrow> error + bool"
  getActionById :: "world \<Rightarrow> string \<Rightarrow> string \<Rightarrow> error + ActionDomain option"
  getAutomations :: "world \<Rightarrow> string \<Rightarrow> string \<Rightarrow> error + AutomationDomain list"
  automationExecution_create :: "world \<Rightarrow> execution_record \<Rightarrow> error option"
  WebhookQueue_getInstance :: "world \<Rightarrow> bool"
  WebhookQueue_add :: "world \<Rightarrow> webhook_payload queue_job \<Rightarrow> error option"
  listDatasetVersions :: "world \<Rightarrow> string \<Rightarrow> string \<Rightarrow> error + int list"
  EntityChangeQueue_getInstance :: "world \<Rightarrow> bool"
  EntityChangeQueue_add :: "world \<Rightarrow> entity_change_payload queue_job \<Rightarrow> error option"
  jsonSchemaNullable_parse :: "jsval \<Rightarrow> error + jsval"
  JSON_stringify :: "dataset_event \<Rightarrow> string"
  error_string :: "error \<Rightarrow> string"
  now :: "world \<Rightarrow> int"
  v4 :: "nat \<Rightarrow> string"

definition io_return :: "'a \<Rightarrow> 'a io" where
  "io_return x = (\<lambda>w. (Inr x, w))"

definition io_throw :: "error \<Rightarrow> 'a io" where
  "io_throw e = (\<lambda>w. (Inl e, w))"

definition io_bind :: "'a io \<Rightarrow> ('a \<Rightarrow> 'b io) \<Rightarrow> 'b io" where
  "io_bind m f = (\<lambda>w. case m w of (Inl e, w') \<Rightarrow> (Inl e, w') | (Inr x, w') \<Rightarrow> f x w')"

definition try_catch :: "'a io \<Rightarrow> (error \<Rightarrow> 'a io) \<Rightarrow> 'a io" where
  "try_catch m handler = (\<lambda>w. case m w of (Inl e, w') \<Rightarrow> handler e w' | (Inr x, w') \<Rightarrow> (Inr x, w'))"

definition io_of :: "error + 'a \<Rightarrow> 'a io" where
  "io_of r = (\<lambda>w. (r, w))"

definition emit :: "effect \<Rightarrow> world \<Rightarrow> world" where
  "emit e w = w\<lparr>trace := trace w @ [e]\<rparr>"

definition logger :: "log_level \<Rightarrow> string \<Rightarrow> obj \<Rightarrow> unit io" where
  "logger lvl msg meta = (\<lambda>w. (Inr (), emit (Logged lvl msg meta) w))"

definition call_v4 :: "services \<Rightarrow> string io" where
  "call_v4 sv = (\<lambda>w. (Inr (v4 sv (uuids w)), w\<lparr>uuids := Suc (uuids w)\<rparr>))"

definition new_Date :: "services \<Rightarrow> int io" where
  "new_Date sv = (\<lambda>w. (Inr (now sv w), w))"

definition call_getTriggerConfigurations ::
  "services \<Rightarrow> string \<Rightarrow> TriggerEventSource \<Rightarrow> JobConfigState \<Rightarrow> TriggerConfiguration list io" where
  "call_getTriggerConfigurations sv projectId src st =
     (\<lambda>w. (getTriggerConfigurations sv w projectId src st,
           emit (CalledGetTriggerConfigurations projectId src st) w))"

definition call_getActionById :: "services \<Rightarrow> string \<Rightarrow> string \<Rightarrow> ActionDomain option io" where
  "call_getActionById sv projectId actionId =
     (\<lambda>w. (getActionById sv w projectId actionId, emit (CalledGetActionById projectId actionId) w))"

definition call_getAutomations :: "services \<Rightarrow> string \<Rightarrow> string \<Rightarrow> AutomationDomain list io" where
  "call_getAutomations sv projectId actionId =
     (\<lambda>w. (getAutomations sv w projectId actionId, emit (CalledGetAutomations projectId actionId) w))"

definition call_listDatasetVersions :: "services \<Rightarrow> string \<Rightarrow> string \<Rightarrow> int list io" where
  "call_listDatasetVersions sv projectId datasetId =
     (\<lambda>w. (listDatasetVersions sv w projectId datasetId,
           emit (CalledListDatasetVersions projectId datasetId) w))"

definition call_automationExecution_create :: "services \<Rightarrow> execution_record \<Rightarrow> unit io" where
  "call_automationExecution_create sv r =
     (\<lambda>w. case automationExecution_create sv w r of
             Some e \<Rightarrow> (Inl e, w)
           | None \<Rightarrow> (Inr (), emit (CreatedExecution r) w))"

definition call_WebhookQueue_add :: "services \<Rightarrow> QueueName \<Rightarrow> webhook_payload queue_job \<Rightarrow> unit io" where
  "call_WebhookQueue_add sv q job =
     (\<lambda>w. case WebhookQueue_add sv w job of
             Some e \<Rightarrow> (Inl e, w)
           | None \<Rightarrow> (Inr (), emit (AddedWebhookJob q job) w))"

definition call_EntityChangeQueue_add ::
  "services \<Rightarrow> QueueName \<Rightarrow> entity_change_payload queue_job \<Rightarrow> unit io" where
  "call_EntityChangeQueue_add sv q job =
     (\<lambda>w. case EntityChangeQueue_add sv w job of
             Some e \<Rightarrow> (Inl e, w)
           | None \<Rightarrow> (Inr (), emit (AddedEntityChange q job) w))"

section \<open>The change event processor: \<open>datasetVersionProcessor\<close>\<close>

definition fieldMapper :: "eventData \<Rightarrow> string \<Rightarrow> jsval option" where
  "fieldMapper data column =
     (if column = ''action'' then Some (JStr (ed_action data))
      else if column = ''Name'' then Some (JStr (ds_name (ed_dataset data)))
      else None)"

definition event_meta :: "dataset_event \<Rightarrow> obj" where
  "event_meta event =
     [(''datasetId'', JStr (ev_datasetId event)),
      (''projectId'', JStr (ev_projectId event)),
      (''action'', JStr (ev_action event))]"

definition msg_processing :: "dataset_event \<Rightarrow> string" where
  "msg_processing event =
     ''Processing dataset change event for dataset '' @ ev_datasetId event
       @ '' for project '' @ ev_projectId event"

definition msg_found :: "nat \<Rightarrow> string" where
  "msg_found n = ''Found '' @ show_nat n @ '' active dataset triggers''"

definition msg_no_match :: "TriggerConfiguration \<Rightarrow> string" where
  "msg_no_match trigger =
     ''Event doesn'' @ [CHR 0x27] @ ''t match trigger '' @ tr_id trigger @ '' filters''"

definition msg_matches :: "TriggerConfiguration \<Rightarrow> string" where
  "msg_matches trigger = ''Trigger '' @ tr_id trigger @ '' matches, executing actions''"

definition msg_not_one_action :: "TriggerConfiguration \<Rightarrow> string" where
  "msg_not_one_action trigger =
     ''Trigger '' @ tr_id trigger @ '' for project '' @ tr_projectId trigger
       @ '' has multiple or no actions. This is not expected''"

definition msg_action_not_found :: "string \<Rightarrow> string" where
  "msg_action_not_found actionId = ''Action '' @ actionId @ '' not found''"

definition msg_trigger_error :: "services \<Rightarrow> TriggerConfiguration \<Rightarrow> dataset_event \<Rightarrow> error \<Rightarrow> string" where
  "msg_trigger_error sv trigger event err =
     ''Error processing trigger '' @ tr_id trigger @ '' for dataset '' @ ev_datasetId event
       @ '' for project '' @ ev_projectId event @ '': '' @ error_string sv err"

definition msg_event_error :: "services \<Rightarrow> dataset_event \<Rightarrow> error \<Rightarrow> string" where
  "msg_event_error sv event err =
     ''Failed to process dataset change event for dataset '' @ ev_datasetId event
       @ '' for project '' @ ev_projectId event @ '': '' @ error_string sv err"

definition msg_expected_one :: "string \<Rightarrow> nat \<Rightarrow> string" where
  "msg_expected_one actionId n =
     ''Expected 1 automation for action '' @ actionId @ '', got '' @ show_nat n"

definition msg_created :: "string \<Rightarrow> string \<Rightarrow> string \<Rightarrow> string" where
  "msg_created executionId projectId actionId =
     ''Created automation execution '' @ executionId @ '' for project '' @ projectId
       @ '' and action '' @ actionId"

subsection \<open>\<open>enqueueAutomationAction\<close>\<close>

definition execution_data ::
  "string \<Rightarrow> string \<Rightarrow> string \<Rightarrow> string \<Rightarrow> string \<Rightarrow> DatasetDomain \<Rightarrow> execution_record" where
  "execution_data executionId projectId automationId triggerId actionId datasetData =
     \<lparr> ex_id = executionId,
       ex_projectId = projectId,
       ex_automationId = automationId,
       ex_triggerId = triggerId,
       ex_actionId = actionId,
       ex_status = PENDING,
       ex_sourceId = ds_id datasetData,
       ex_input =
         [(''datasetName'', JStr (ds_name datasetData)),
          (''datasetId'', JStr (ds_id datasetData)),
          (''automationId'', JStr automationId),
          (''type'', JStr ''dataset'')] \<rparr>"

text \<open>
  The dataset of an outgoing payload: the spread of \<open>datasetData\<close> with the three schema
  fields replaced by their parsed values, parsed in the order the literal lists them.
\<close>

definition parsed_dataset :: "services \<Rightarrow> DatasetDomain \<Rightarrow> obj io" where
  "parsed_dataset sv datasetData =
     io_bind (io_of (jsonSchemaNullable_parse sv (ds_metadata datasetData))) (\<lambda>metadata.
     io_bind (io_of (jsonSchemaNullable_parse sv (ds_inputSchema datasetData))) (\<lambda>inputSchema.
     io_bind (io_of (jsonSchemaNullable_parse sv (ds_expectedOutputSchema datasetData)))
       (\<lambda>expectedOutputSchema.
     io_return
       (obj_set ''expectedOutputSchema'' expectedOutputSchema
         (obj_set ''inputSchema'' inputSchema
           (obj_set ''metadata'' metadata (dataset_obj datasetData)))))))"

text \<open>
  The argument of \<open>WebhookQueue.add\<close>. It is evaluated only when \<open>getInstance()\<close> is not
  null (the call is behind \<open>?.\<close>), field by field in the order of the literal.
\<close>

definition webhook_job ::
  "services \<Rightarrow> DatasetDomain \<Rightarrow> string \<Rightarrow> string \<Rightarrow> string \<Rightarrow> string \<Rightarrow> webhook_payload queue_job io" where
  "webhook_job sv datasetData action projectId automationId executionId =
     io_bind (new_Date sv) (\<lambda>timestamp.
     io_bind (call_v4 sv) (\<lambda>id.
     io_bind (parsed_dataset sv datasetData) (\<lambda>dataset.
     io_return
       \<lparr> job_timestamp = timestamp,
         job_id = id,
         job_payload =
           \<lparr> wp_projectId = projectId,
             wp_automationId = automationId,
             wp_executionId = executionId,
             wp_payload =
               [(''action'', JStr action),
                (''type'', JStr ''dataset''),
                (''dataset'', JObj dataset)] \<rparr>,
         job_name = WebhookJob \<rparr>)))"

definition enqueueAutomationAction ::
  "services \<Rightarrow> DatasetDomain \<Rightarrow> string \<Rightarrow> string \<Rightarrow> string \<Rightarrow> string \<Rightarrow> unit io" where
  "enqueueAutomationAction sv datasetData action triggerId actionId projectId =
     io_bind (call_getAutomations sv projectId actionId) (\<lambda>automations.
     if length automations \<noteq> 1 then
       io_throw (InternalServerError (msg_expected_one actionId (length automations)))
     else
       io_bind (call_v4 sv) (\<lambda>executionId.
       io_bind (call_automationExecution_create sv
                 (execution_data executionId projectId (au_id (automations ! 0))
                    triggerId actionId datasetData)) (\<lambda>_.
       io_bind (logger LDebug (msg_created executionId projectId actionId) []) (\<lambda>_.
       (\<lambda>w. if WebhookQueue_getInstance sv w then
              io_bind (webhook_job sv datasetData action projectId
                         (au_id (automations ! 0)) executionId)
                (\<lambda>job. call_WebhookQueue_add sv WebhookQueue job) w
            else io_return () w)))))"

text \<open>
  The part of \<open>enqueueAutomationAction\<close> that follows the automation lookup, for the
  identifier of the one automation found.
\<close>

definition record_and_enqueue ::
  "services \<Rightarrow> DatasetDomain \<Rightarrow> string \<Rightarrow> string \<Rightarrow> string \<Rightarrow> string \<Rightarrow> string \<Rightarrow> unit io" where
  "record_and_enqueue sv datasetData action triggerId actionId projectId automationId =
       io_bind (call_v4 sv) (\<lambda>executionId.
       io_bind (call_automationExecution_create sv
                 (execution_data executionId projectId automationId
                    triggerId actionId datasetData)) (\<lambda>_.
       io_bind (logger LDebug (msg_created executionId projectId actionId) []) (\<lambda>_.
       (\<lambda>w. if WebhookQueue_getInstance sv w then
              io_bind (webhook_job sv datasetData action projectId
                         automationId executionId)
                (\<lambda>job. call_WebhookQueue_add sv WebhookQueue job) w
            else io_return () w))))"

subsection \<open>The loop over the triggers\<close>

text \<open>
  The callback mapped over \<open>trigger.actionIds\<close>. \<open>Promise.all\<close> is reached only behind
  the guard that the list has exactly one element, so it awaits this one call.
\<close>

definition dispatch_action :: "services \<Rightarrow> dataset_event \<Rightarrow> TriggerConfiguration \<Rightarrow> string \<Rightarrow> unit io" where
  "dispatch_action sv event trigger actionId =
     io_bind (call_getActionById sv (ev_projectId event) actionId) (\<lambda>actionConfig.
     case actionConfig of
       None \<Rightarrow> logger LError (msg_action_not_found actionId) []
     | Some _ \<Rightarrow>
         enqueueAutomationAction sv (ev_dataset event) (ev_action event) (tr_id trigger)
           actionId (ev_projectId event))"

text \<open>The body of the \<open>try\<close> inside the loop.\<close>

definition trigger_body :: "services \<Rightarrow> dataset_event \<Rightarrow> TriggerConfiguration \<Rightarrow> unit io" where
  "trigger_body sv event trigger =
     (let data = \<lparr> ed_dataset = ev_dataset event, ed_action = ev_action event \<rparr>
      in io_bind (io_of (evaluateFilter sv data (tr_filter trigger) fieldMapper)) (\<lambda>eventMatches.
         if \<not> eventMatches then
           logger LDebug (msg_no_match trigger) (event_meta event)
         else
           io_bind (logger LDebug (msg_matches trigger) (event_meta event)) (\<lambda>_.
           if length (tr_actionIds trigger) \<noteq> 1 then
             io_bind (logger LDebug (msg_not_one_action trigger) []) (\<lambda>_.
             io_throw (InternalServerError (msg_not_one_action trigger)))
           else
             dispatch_action sv event trigger (tr_actionIds trigger ! 0))))"

text \<open>One iteration of the loop: the body and its \<open>catch\<close>.\<close>

definition process_trigger :: "services \<Rightarrow> dataset_event \<Rightarrow> TriggerConfiguration \<Rightarrow> unit io" where
  "process_trigger sv event trigger =
     try_catch (trigger_body sv event trigger)
       (\<lambda>err. logger LError (msg_trigger_error sv trigger event err) [])"

fun for_triggers :: "services \<Rightarrow> dataset_event \<Rightarrow> TriggerConfiguration list \<Rightarrow> unit io" where
  "for_triggers sv event [] = io_return ()"
| "for_triggers sv event (trigger # rest) =
     io_bind (process_trigger sv event trigger) (\<lambda>_. for_triggers sv event rest)"

definition datasetVersionProcessor :: "services \<Rightarrow> dataset_event \<Rightarrow> unit io" where
  "datasetVersionProcessor sv event =
     try_catch
       (io_bind (logger LInfo (msg_processing event)
                  [(''event'', JStr (JSON_stringify sv event))]) (\<lambda>_.
        io_bind (call_getTriggerConfigurations sv (ev_projectId event) Dataset ACTIVE) (\<lambda>triggers.
        io_bind (logger LDebug (msg_found (length triggers)) (event_meta event)) (\<lambda>_.
        for_triggers sv event triggers))))
       (\<lambda>err. io_bind (logger LError (msg_event_error sv event err) []) (\<lambda>_. io_throw err))"

section \<open>The change publisher: \<open>datasetChangeEventSourcing\<close>\<close>

definition msg_queued :: "DatasetDomain \<Rightarrow> TriggerEventAction \<Rightarrow> string" where
  "msg_queued datasetData action =
     ''Queued entity change event for dataset '' @ ds_id datasetData @ '' in project ''
       @ ds_projectId datasetData @ '' with action '' @ action_string action"

definition msg_queue_failed :: "services \<Rightarrow> DatasetDomain \<Rightarrow> error \<Rightarrow> string" where
  "msg_queue_failed sv datasetData err =
     ''Failed to queue entity change event for dataset '' @ ds_id datasetData
       @ '' for project '' @ ds_projectId datasetData @ '': '' @ error_string sv err"

text \<open>The \<open>event\<close> constant, built before the \<open>try\<close>.\<close>

text \<open>
  The spread of \<open>datasetData\<close> followed by \<open>itemsUpdatedAt: itemsUpdatedAt\<close> overwrites
  that key in place, which is the record update below.
\<close>

definition change_event ::
  "services \<Rightarrow> DatasetDomain \<Rightarrow> TriggerEventAction \<Rightarrow> int option
     \<Rightarrow> entity_change_payload queue_job io" where
  "change_event sv datasetData action itemsUpdatedAt =
     io_bind (new_Date sv) (\<lambda>timestamp.
     io_bind (call_v4 sv) (\<lambda>id.
     io_bind (parsed_dataset sv (datasetData\<lparr>ds_itemsUpdatedAt := itemsUpdatedAt\<rparr>)) (\<lambda>dataset.
     io_return
       \<lparr> job_timestamp = timestamp,
         job_id = id,
         job_payload =
           \<lparr> ec_entityType = ''dataset'',
             ec_projectId = ds_projectId datasetData,
             ec_datasetId = ds_id datasetData,
             ec_action = action,
             ec_dataset = dataset \<rparr>,
         job_name = EntityChangeJob \<rparr>)))"

definition datasetChangeEventSourcing ::
  "services \<Rightarrow> DatasetDomain option \<Rightarrow> TriggerEventAction \<Rightarrow> unit io" where
  "datasetChangeEventSourcing sv datasetData action =
     (case datasetData of
        None \<Rightarrow> io_return ()
      | Some d \<Rightarrow>
          io_bind (call_listDatasetVersions sv (ds_projectId d) (ds_id d)) (\<lambda>datasetVersions.
          let itemsUpdatedAt =
                (if length datasetVersions > 0 then Some (datasetVersions ! 0) else None)
          in io_bind (change_event sv d action itemsUpdatedAt) (\<lambda>event.
             try_catch
               (io_bind
                  (\<lambda>w. if EntityChangeQueue_getInstance sv w
                       then call_EntityChangeQueue_add sv EntityChangeQueue event w
                       else io_return () w) (\<lambda>_.
                logger LInfo (msg_queued d action) []))
               (\<lambda>err. io_bind (logger LError (msg_queue_failed sv d err) []) (\<lambda>_.
                      io_throw err)))))"

section \<open>The filter evaluator\<close>

fun is_substring :: "string \<Rightarrow> string \<Rightarrow> bool" where
  "is_substring sub [] = (sub = [])"
| "is_substring sub (c # cs) = (take (length sub) (c # cs) = sub \<or> is_substring sub cs)"

definition condition_holds :: "jsval \<Rightarrow> filter_operator \<Rightarrow> jsval \<Rightarrow> bool" where
  "condition_holds fieldValue operator expected =
     (case operator of
        OpEquals \<Rightarrow> fieldValue = expected
      | OpNotEquals \<Rightarrow> fieldValue \<noteq> expected
      | OpContains \<Rightarrow>
          (case (fieldValue, expected) of
             (JStr s, JStr sub) \<Rightarrow> is_substring sub s
           | _ \<Rightarrow> False))"

text \<open>
  Modelled from the spec: \<open>InMemoryFilterService.evaluateFilter\<close>, which the processor
  imports and whose code is not among these files. Section 4.1 of the specification:
  each condition resolves its column through the field mapper; when the mapper returns
  undefined the condition is false and nothing is raised; the operators are equality,
  inequality and case-sensitive substring; all conditions must hold, and an empty list
  of conditions matches everything.
\<close>

definition evaluateFilter_spec ::
  "eventData \<Rightarrow> filter_condition list \<Rightarrow> (eventData \<Rightarrow> string \<Rightarrow> jsval option) \<Rightarrow> bool" where
  "evaluateFilter_spec data predicate mapper =
     list_all (\<lambda>condition.
        case mapper data (fc_column condition) of
          None \<Rightarrow> False
        | Some fieldValue \<Rightarrow>
            condition_holds fieldValue (fc_operator condition) (fc_value condition))
       predicate"

section \<open>Properties of traces\<close>

definition is_pending_record_of :: "string \<Rightarrow> effect \<Rightarrow> bool" where
  "is_pending_record_of executionId e =
     (case e of
        CreatedExecution r \<Rightarrow> ex_id r = executionId \<and> ex_status r = PENDING
      | _ \<Rightarrow> False)"

text \<open>
  Every webhook job of the trace comes after the creation of a pending execution record
  whose identifier is the job's \<open>executionId\<close>.
\<close>

definition recorded_before :: "effect list \<Rightarrow> bool" where
  "recorded_before tr =
     list_all (\<lambda>i.
        case tr ! i of
          AddedWebhookJob q job \<Rightarrow>
            list_ex (is_pending_record_of (wp_executionId (job_payload job))) (take i tr)
        | _ \<Rightarrow> True)
       [0..<length tr]"

fun created_ids :: "effect list \<Rightarrow> string list" where
  "created_ids [] = []"
| "created_ids (CreatedExecution r # es) = ex_id r # created_ids es"
| "created_ids (e # es) = created_ids es"

fun webhook_jobs :: "effect list \<Rightarrow> (QueueName \<times> webhook_payload queue_job) list" where
  "webhook_jobs [] = []"
| "webhook_jobs (AddedWebhookJob q job # es) = (q, job) # webhook_jobs es"
| "webhook_jobs (e # es) = webhook_jobs es"

definition is_write :: "effect \<Rightarrow> bool" where
  "is_write e =
     (case e of
        CreatedExecution r \<Rightarrow> True
      | AddedWebhookJob q job \<Rightarrow> True
      | AddedEntityChange q job \<Rightarrow> True
      | _ \<Rightarrow> False)"


text \<open>A step of the world that only reads, logs or draws identifiers.\<close>

definition quiet :: "world \<Rightarrow> world \<Rightarrow> bool" where
  "quiet w w' =
     (uuids w \<le> uuids w' \<and>
      (\<exists>added. trace w' = trace w @ added \<and> list_all (\<lambda>e. \<not> is_write e) added))"

text \<open>
  A step of the world that keeps the order of records and jobs, and whose new execution
  records carry identifiers drawn during the step, each from a later call of \<open>v4\<close>.
\<close>

definition ordered_step :: "services \<Rightarrow> world \<Rightarrow> world \<Rightarrow> bool" where
  "ordered_step sv w w' =
     (uuids w \<le> uuids w' \<and>
      (\<exists>added ks. trace w' = trace w @ added \<and> recorded_before added
         \<and> created_ids added = map (v4 sv) ks \<and> sorted_wrt (<) ks
         \<and> set ks \<subseteq> {uuids w..<uuids w'}))"





definition io_pres :: "(world \<Rightarrow> world \<Rightarrow> bool) \<Rightarrow> 'a io \<Rightarrow> bool" where
  "io_pres R m = (\<forall>w. R w (snd (m w)))"

section \<open>Example configurations\<close>

definition example_dataset :: DatasetDomain where
  "example_dataset =
     \<lparr> ds_id = ''ds1'', ds_name = ''eval-set'', ds_projectId = ''p1'',
       ds_description = None, ds_metadata = JNull, ds_remoteExperimentUrl = None,
       ds_remoteExperimentPayload = JNull, ds_inputSchema = JNull,
       ds_expectedOutputSchema = JNull, ds_itemsUpdatedAt = None,
       ds_createdAt = 1000, ds_updatedAt = 2000 \<rparr>"

definition example_event :: dataset_event where
  "example_event =
     \<lparr> ev_projectId = ''p1'', ev_datasetId = ''ds1'', ev_action = ''updated'',
       ev_dataset = example_dataset \<rparr>"

definition trigger_on_update :: TriggerConfiguration where
  "trigger_on_update =
     \<lparr> tr_id = ''t1'', tr_projectId = ''p1'',
       tr_filter = [\<lparr> fc_column = ''action'', fc_operator = OpEquals,
                      fc_value = JStr ''updated'' \<rparr>],
       tr_actionIds = [''a1''] \<rparr>"


definition example_action :: ActionDomain where
  "example_action =
     \<lparr> act_id = ''a1'', act_type = ''WEBHOOK'',
       act_config = Some \<lparr> cfg_url = Some ''https://example.test/hook'',
         cfg_displayHeaders =
           Some [(''x-token'', \<lparr> ho_secret = True, ho_value = ''tok-123'' \<rparr>),
                 (''x-team'', \<lparr> ho_secret = False, ho_value = ''evals'' \<rparr>)],
         cfg_apiVersion = Some [(''dataset'', ''v1'')] \<rparr> \<rparr>"

definition example_automation :: AutomationDomain where
  "example_automation =
     \<lparr> au_id = ''auto1'', au_name = ''notify'', au_action = Some example_action \<rparr>"

text \<open>A filter service that knows equality conditions only.\<close>

definition equality_filter ::
  "eventData \<Rightarrow> filter_condition list \<Rightarrow> (eventData \<Rightarrow> string \<Rightarrow> jsval option) \<Rightarrow> error + bool" where
  "equality_filter data predicate mapper =
     Inr (list_all (\<lambda>c. mapper data (fc_column c) = Some (fc_value c)) predicate)"

definition example_error_string :: "error \<Rightarrow> string" where
  "example_error_string e =
     (case e of InternalServerError m \<Rightarrow> ''InternalServerError: '' @ m
              | Failure m \<Rightarrow> ''Error: '' @ m)"

text \<open>Services in which every call succeeds; the active triggers are a parameter.\<close>

definition example_services :: "TriggerConfiguration list \<Rightarrow> services" where
  "example_services triggers =
     \<lparr> getTriggerConfigurations = (\<lambda>w projectId src st. Inr triggers),
       evaluateFilter = equality_filter,
       getActionById = (\<lambda>w projectId actionId.
          Inr (if actionId = ''a1'' then Some example_action else None)),
       getAutomations = (\<lambda>w projectId actionId. Inr [example_automation]),
       automationExecution_create = (\<lambda>w r. None),
       WebhookQueue_getInstance = (\<lambda>w. True),
       WebhookQueue_add = (\<lambda>w job. None),
       listDatasetVersions = (\<lambda>w projectId datasetId. Inr [3000]),
       EntityChangeQueue_getInstance = (\<lambda>w. True),
       EntityChangeQueue_add = (\<lambda>w job. None),
       jsonSchemaNullable_parse = (\<lambda>v. Inr v),
       JSON_stringify = (\<lambda>event. ''{}''),
       error_string = example_error_string,
       now = (\<lambda>w. 5000),
       v4 = (\<lambda>n. ''uuid-'' @ show_nat n) \<rparr>"

definition initial_world :: world where
  "initial_world = \<lparr> trace = [], uuids = 0 \<rparr>"

text \<open>
  The automation store fails at its first call and answers from then on; the trigger
  store is unavailable; the change queue refuses a job.
\<close>

definition flaky_services :: "TriggerConfiguration list \<Rightarrow> services" where
  "flaky_services triggers =
     (example_services triggers)
       \<lparr> getAutomations := (\<lambda>w projectId actionId.
            if CalledGetAutomations projectId actionId \<in> set (trace w)
            then Inr [example_automation]
            else Inl (Failure ''automation store unavailable'')) \<rparr>"

definition unavailable_services :: services where
  "unavailable_services =
     (example_services [])
       \<lparr> getTriggerConfigurations := (\<lambda>w projectId src st. Inl (Failure ''trigger store unavailable'')),
         EntityChangeQueue_add := (\<lambda>w job. Some (Failure ''queue unavailable'')) \<rparr>"



section \<open>Lemmas about strings\<close>



lemma read_nat_snoc: "read_nat (s @ [c]) = 10 * read_nat s + ((of_char c :: nat) - 48)"
  by (simp add: read_nat_def)

lemma of_char_digit_char: "d < 10 \<Longrightarrow> (of_char (digit_char d) :: nat) - 48 = d"
  by (simp add: digit_char_def)

lemma read_show_nat: "read_nat (show_nat n) = n"
proof (induction n rule: show_nat.induct)
  case (1 n)
  show ?case
  proof (cases "n < 10")
    case True
    then show ?thesis
      by (simp add: show_nat.simps [of n] read_nat_def of_char_digit_char)
  next
    case False
    then show ?thesis
      using "1.IH" [OF False]
      by (simp add: show_nat.simps [of n] read_nat_snoc of_char_digit_char)
  qed
qed

lemma show_nat_inj: "show_nat a = show_nat b \<Longrightarrow> a = b"
  by (metis read_show_nat)




section \<open>Lemmas about the form validation\<close>

















lemma parseHeaders_entries:
  "parseHeaders automation = [] \<or> (\<exists>displayHeaders. parseHeaders automation = map header_pair_of displayHeaders)"
  by (auto simp: parseHeaders_def split: option.split)

lemma parseHeaders_image:
  assumes "p \<in> set (parseHeaders automation)"
  shows "\<exists>entry. p = header_pair_of entry"
proof -
  from parseHeaders_entries [of automation] assms
  obtain displayHeaders where "p \<in> set (map header_pair_of displayHeaders)"
    by fastforce
  then show ?thesis by auto
qed

lemma parseHeaders_webhook:
  assumes "automation = Some a \<and> au_action a = Some act \<and> act_type act = ''WEBHOOK''
         \<and> act_config act = Some config \<and> cfg_displayHeaders config = Some displayHeaders"
  shows "parseHeaders automation = map header_pair_of displayHeaders"
proof -
  from assms have "parseHeaders (Some a) = map header_pair_of displayHeaders"
    by (simp add: parseHeaders_def)
  with assms show ?thesis by blast
qed

section \<open>Lemmas about traces and steps\<close>

lemma recorded_before_iff:
  "recorded_before tr \<longleftrightarrow>
     (\<forall>i<length tr. \<forall>q job. tr ! i = AddedWebhookJob q job \<longrightarrow>
        (\<exists>j<i. is_pending_record_of (wp_executionId (job_payload job)) (tr ! j)))"
proof -
  have ex: "list_ex P (take i tr) \<longleftrightarrow> (\<exists>j<i. P (tr ! j))" if "i < length tr" for P i
  proof
    assume "list_ex P (take i tr)"
    then obtain j where "j < length (take i tr)" "P (take i tr ! j)"
      by (auto simp: list_ex_iff in_set_conv_nth)
    then show "\<exists>j<i. P (tr ! j)" by auto
  next
    assume "\<exists>j<i. P (tr ! j)"
    then obtain j where j: "j < i" "P (tr ! j)" by blast
    with that have "j < length (take i tr)" "take i tr ! j = tr ! j" by simp_all
    with j have "take i tr ! j \<in> set (take i tr)" "P (take i tr ! j)"
      using nth_mem by (blast, simp)
    then show "list_ex P (take i tr)" by (auto simp: list_ex_iff)
  qed
  show ?thesis
    unfolding recorded_before_def list_all_iff
    by (auto simp: ex split: effect.splits)
qed

lemma recorded_before_append:
  assumes "recorded_before xs" "recorded_before ys"
  shows "recorded_before (xs @ ys)"
  unfolding recorded_before_iff
proof (intro allI impI)
  fix i q job
  assume i: "i < length (xs @ ys)" and at: "(xs @ ys) ! i = AddedWebhookJob q job"
  let ?P = "is_pending_record_of (wp_executionId (job_payload job))"
  show "\<exists>j<i. ?P ((xs @ ys) ! j)"
  proof (cases "i < length xs")
    case True
    with at have "xs ! i = AddedWebhookJob q job" by (simp add: nth_append)
    with assms(1) True obtain j where "j < i" "?P (xs ! j)"
      unfolding recorded_before_iff by blast
    with True show ?thesis by (auto simp: nth_append intro!: exI [of _ j])
  next
    case False
    with i at have "i - length xs < length ys" "ys ! (i - length xs) = AddedWebhookJob q job"
      by (auto simp: nth_append)
    with assms(2) obtain j where j: "j < i - length xs" "?P (ys ! j)"
      unfolding recorded_before_iff by blast
    then have "length xs + j < i" "?P ((xs @ ys) ! (length xs + j))"
      by (auto simp: nth_append)
    then show ?thesis by blast
  qed
qed

lemma recorded_before_no_jobs:
  "webhook_jobs tr = [] \<Longrightarrow> recorded_before tr"
  unfolding recorded_before_iff
proof (intro allI impI)
  fix i q job
  assume a: "webhook_jobs tr = []" "i < length tr" "tr ! i = AddedWebhookJob q job"
  have "webhook_jobs tr \<noteq> []" if "AddedWebhookJob q job \<in> set tr" for tr
    using that by (induction tr rule: webhook_jobs.induct) auto
  with a show "\<exists>j<i. is_pending_record_of (wp_executionId (job_payload job)) (tr ! j)"
    using nth_mem by metis
qed

lemma created_ids_append: "created_ids (xs @ ys) = created_ids xs @ created_ids ys"
  by (induction xs rule: created_ids.induct) auto


lemma no_write_created_ids: "list_all (\<lambda>e. \<not> is_write e) tr \<Longrightarrow> created_ids tr = []"
  by (induction tr rule: created_ids.induct) (auto simp: is_write_def)

lemma no_write_webhook_jobs: "list_all (\<lambda>e. \<not> is_write e) tr \<Longrightarrow> webhook_jobs tr = []"
  by (induction tr rule: webhook_jobs.induct) (auto simp: is_write_def)

lemma quiet_refl: "quiet w w"
  by (simp add: quiet_def)

lemma quiet_trans: "quiet a b \<Longrightarrow> quiet b c \<Longrightarrow> quiet a c"
  by (auto simp: quiet_def)

lemma quiet_ordered:
  assumes "quiet w w'"
  shows "ordered_step sv w w'"
proof -
  from assms obtain added where a: "uuids w \<le> uuids w'" "trace w' = trace w @ added"
    "list_all (\<lambda>e. \<not> is_write e) added"
    unfolding quiet_def by blast
  then have "recorded_before added" "created_ids added = map (v4 sv) []"
    by (simp_all add: no_write_created_ids no_write_webhook_jobs recorded_before_no_jobs)
  with a show ?thesis
    unfolding ordered_step_def by fastforce
qed


lemma ordered_step_refl: "ordered_step sv w w"
  by (simp add: quiet_ordered quiet_refl)


lemma sorted_wrt_less_append:
  fixes ks ls :: "nat list"
  assumes "sorted_wrt (<) ks" "sorted_wrt (<) ls" "set ks \<subseteq> {a..<b}" "set ls \<subseteq> {b..<c}"
  shows "sorted_wrt (<) (ks @ ls)"
proof -
  have "x < y" if "x \<in> set ks" "y \<in> set ls" for x y
  proof -
    from that assms(3,4) have "x < b" "b \<le> y" by auto
    then show ?thesis by simp
  qed
  with assms(1,2) show ?thesis by (simp add: sorted_wrt_append)
qed

lemma ordered_step_trans:
  assumes "ordered_step sv a b" "ordered_step sv b c"
  shows "ordered_step sv a c"
proof -
  from assms(1) obtain xs ks where 1: "uuids a \<le> uuids b" "trace b = trace a @ xs"
    "recorded_before xs" "created_ids xs = map (v4 sv) ks" "sorted_wrt (<) ks"
    "set ks \<subseteq> {uuids a..<uuids b}"
    unfolding ordered_step_def by blast
  from assms(2) obtain ys ls where 2: "uuids b \<le> uuids c" "trace c = trace b @ ys"
    "recorded_before ys" "created_ids ys = map (v4 sv) ls" "sorted_wrt (<) ls"
    "set ls \<subseteq> {uuids b..<uuids c}"
    unfolding ordered_step_def by blast
  have "trace c = trace a @ (xs @ ys)" using 1 2 by simp
  moreover have "recorded_before (xs @ ys)" using 1 2 by (simp add: recorded_before_append)
  moreover have "created_ids (xs @ ys) = map (v4 sv) (ks @ ls)"
    using 1 2 by (simp add: created_ids_append)
  moreover have "sorted_wrt (<) (ks @ ls)"
    using 1 2 by (blast intro: sorted_wrt_less_append)
  moreover have "set (ks @ ls) \<subseteq> {uuids a..<uuids c}"
    using 1 2 by fastforce
  moreover have "uuids a \<le> uuids c" using 1 2 by simp
  ultimately show ?thesis
    unfolding ordered_step_def by blast
qed


subsection \<open>Preservation through the control structure\<close>

lemma io_presD: "io_pres R m \<Longrightarrow> m w = (r, w') \<Longrightarrow> R w w'"
  by (auto simp: io_pres_def dest: spec [of _ w])

lemma io_pres_return: "reflp R \<Longrightarrow> io_pres R (io_return x)"
  by (simp add: io_pres_def io_return_def reflpD)

lemma io_pres_throw: "reflp R \<Longrightarrow> io_pres R (io_throw e)"
  by (simp add: io_pres_def io_throw_def reflpD)

lemma io_pres_of: "reflp R \<Longrightarrow> io_pres R (io_of r)"
  by (simp add: io_pres_def io_of_def reflpD)

lemma io_pres_bind:
  assumes "transp R"
    and "io_pres R m" and "\<And>x. io_pres R (f x)"
  shows "io_pres R (io_bind m f)"
  unfolding io_pres_def
proof
  fix w
  obtain r w1 where m: "m w = (r, w1)" by (cases "m w")
  then have 1: "R w w1" using assms(2) by (rule io_presD [rotated])
  show "R w (snd (io_bind m f w))"
  proof (cases r)
    case (Inl e)
    with m 1 show ?thesis by (simp add: io_bind_def)
  next
    case (Inr x)
    have "R w1 (snd (f x w1))" using assms(3) by (simp add: io_pres_def)
    with 1 have "R w (snd (f x w1))" by (rule transpD [OF assms(1)])
    with m Inr show ?thesis by (simp add: io_bind_def)
  qed
qed

lemma io_pres_try_catch:
  assumes "transp R"
    and "io_pres R m" and "\<And>e. io_pres R (h e)"
  shows "io_pres R (try_catch m h)"
  unfolding io_pres_def
proof
  fix w
  obtain r w1 where m: "m w = (r, w1)" by (cases "m w")
  then have 1: "R w w1" using assms(2) by (rule io_presD [rotated])
  show "R w (snd (try_catch m h w))"
  proof (cases r)
    case (Inr x)
    with m 1 show ?thesis by (simp add: try_catch_def)
  next
    case (Inl e)
    have "R w1 (snd (h e w1))" using assms(3) by (simp add: io_pres_def)
    with 1 have "R w (snd (h e w1))" by (rule transpD [OF assms(1)])
    with m Inl show ?thesis by (simp add: try_catch_def)
  qed
qed

lemma io_pres_if:
  "io_pres R m \<Longrightarrow> io_pres R n \<Longrightarrow> io_pres R (\<lambda>w. if c w then m w else n w)"
  by (simp add: io_pres_def)

lemma io_pres_mono: "(\<And>w w'. Q w w' \<Longrightarrow> R w w') \<Longrightarrow> io_pres Q m \<Longrightarrow> io_pres R m"
  by (simp add: io_pres_def)

subsection \<open>The quiet primitives\<close>

lemma quiet_emit: "\<not> is_write e \<Longrightarrow> quiet w (emit e w)"
  by (simp add: quiet_def emit_def)

lemma quiet_logger: "io_pres quiet (logger lvl msg meta)"
  by (simp add: io_pres_def logger_def quiet_emit is_write_def)

lemma quiet_call_v4: "io_pres quiet (call_v4 sv)"
  by (simp add: io_pres_def call_v4_def quiet_def)

lemma quiet_new_Date: "io_pres quiet (new_Date sv)"
  by (simp add: io_pres_def new_Date_def quiet_refl)

lemma quiet_getTriggerConfigurations: "io_pres quiet (call_getTriggerConfigurations sv p s st)"
  by (simp add: io_pres_def call_getTriggerConfigurations_def quiet_emit is_write_def)

lemma quiet_getActionById: "io_pres quiet (call_getActionById sv p a)"
  by (simp add: io_pres_def call_getActionById_def quiet_emit is_write_def)

lemma quiet_getAutomations: "io_pres quiet (call_getAutomations sv p a)"
  by (simp add: io_pres_def call_getAutomations_def quiet_emit is_write_def)

lemma quiet_listDatasetVersions: "io_pres quiet (call_listDatasetVersions sv p d)"
  by (simp add: io_pres_def call_listDatasetVersions_def quiet_emit is_write_def)

lemma reflp_quiet: "reflp quiet"
  by (rule reflpI) (rule quiet_refl)

lemma transp_quiet: "transp quiet"
  by (rule transpI) (rule quiet_trans)

lemma reflp_ordered_step: "reflp (ordered_step sv)"
  by (rule reflpI) (rule ordered_step_refl)

lemma transp_ordered_step: "transp (ordered_step sv)"
  by (rule transpI) (rule ordered_step_trans)



section \<open>Lemmas about the processor\<close>

lemma parsed_dataset_world: "snd (parsed_dataset sv d w) = w"
  by (simp add: parsed_dataset_def io_bind_def io_of_def io_return_def split: sum.splits)


lemma webhook_job_world:
  "webhook_job sv d a p au e w = (r, w') \<Longrightarrow> w' = w\<lparr>uuids := Suc (uuids w)\<rparr>"
  using parsed_dataset_world [of sv d "w\<lparr>uuids := Suc (uuids w)\<rparr>"]
  by (auto simp: webhook_job_def io_bind_def new_Date_def call_v4_def io_return_def
      split: sum.splits prod.splits)

lemma webhook_job_result:
  assumes "webhook_job sv d a p au e w = (Inr job, w')"
  shows "\<exists>ds. parsed_dataset sv d (w\<lparr>uuids := Suc (uuids w)\<rparr>) = (Inr ds, w')
    \<and> job = \<lparr> job_timestamp = now sv w, job_id = v4 sv (uuids w),
              job_payload = \<lparr> wp_projectId = p, wp_automationId = au, wp_executionId = e,
                wp_payload = [(''action'', JStr a), (''type'', JStr ''dataset''),
                              (''dataset'', JObj ds)] \<rparr>,
              job_name = WebhookJob \<rparr>"
  using assms
  by (auto simp: webhook_job_def io_bind_def new_Date_def call_v4_def io_return_def
      split: sum.splits prod.splits)


lemma enqueueAutomationAction_eq:
  "enqueueAutomationAction sv d a t aid p =
     io_bind (call_getAutomations sv p aid) (\<lambda>automations.
       if length automations \<noteq> 1 then
         io_throw (InternalServerError (msg_expected_one aid (length automations)))
       else record_and_enqueue sv d a t aid p (au_id (automations ! 0)))"
  unfolding enqueueAutomationAction_def record_and_enqueue_def by (rule refl)

lemma record_and_enqueue_cases:
  assumes "record_and_enqueue sv d a t aid p au w = (r, w')"
  defines "rec \<equiv> execution_data (v4 sv (uuids w)) p au t aid d"
  defines "lg \<equiv> Logged LDebug (msg_created (v4 sv (uuids w)) p aid) []"
  shows "(trace w' = trace w \<and> uuids w' = Suc (uuids w))
       \<or> (trace w' = trace w @ [CreatedExecution rec, lg]
           \<and> uuids w' \<in> {Suc (uuids w), Suc (Suc (uuids w))})
       \<or> (\<exists>job w1 w2. trace w' = trace w @ [CreatedExecution rec, lg, AddedWebhookJob WebhookQueue job]
           \<and> uuids w' = Suc (Suc (uuids w))
           \<and> webhook_job sv d a p au (v4 sv (uuids w)) w1 = (Inr job, w2))"
proof -
  let ?w1 = "w\<lparr>uuids := Suc (uuids w)\<rparr>"
  show ?thesis
  proof (cases "automationExecution_create sv ?w1 rec")
    case (Some e)
    with assms(1) show ?thesis
      by (auto simp: record_and_enqueue_def io_bind_def call_v4_def
          call_automationExecution_create_def rec_def)
  next
    case None
    let ?w3 = "emit lg (emit (CreatedExecution rec) ?w1)"
    have run: "record_and_enqueue sv d a t aid p au w =
        (if WebhookQueue_getInstance sv ?w3 then
           io_bind (webhook_job sv d a p au (v4 sv (uuids w)))
             (\<lambda>job. call_WebhookQueue_add sv WebhookQueue job) ?w3
         else io_return () ?w3)"
      using None
      by (simp add: record_and_enqueue_def io_bind_def call_v4_def
          call_automationExecution_create_def rec_def lg_def logger_def)
    show ?thesis
    proof (cases "WebhookQueue_getInstance sv ?w3")
      case False
      with run assms(1) show ?thesis
        by (auto simp: io_return_def emit_def)
    next
      case True
      obtain rj wj where wj: "webhook_job sv d a p au (v4 sv (uuids w)) ?w3 = (rj, wj)"
        by (cases "webhook_job sv d a p au (v4 sv (uuids w)) ?w3")
      then have wj': "wj = ?w3\<lparr>uuids := Suc (uuids ?w3)\<rparr>"
        by (rule webhook_job_world)
      show ?thesis
      proof (cases rj)
        case (Inl e)
        with run True wj wj' assms(1) show ?thesis
          by (auto simp: io_bind_def emit_def)
      next
        case (Inr job)
        show ?thesis
        proof (cases "WebhookQueue_add sv wj job")
          case (Some e)
          with run True wj wj' Inr assms(1) show ?thesis
            by (auto simp: io_bind_def emit_def call_WebhookQueue_add_def)
        next
          case None
          with run True wj wj' Inr assms(1)
          have "trace w' = trace w @ [CreatedExecution rec, lg, AddedWebhookJob WebhookQueue job]"
            "uuids w' = Suc (Suc (uuids w))"
            by (auto simp: io_bind_def emit_def call_WebhookQueue_add_def)
          with wj Inr show ?thesis by blast
        qed
      qed
    qed
  qed
qed

lemma execution_data_simps:
  "ex_id (execution_data e p au t aid d) = e"
  "ex_status (execution_data e p au t aid d) = PENDING"
  by (simp_all add: execution_data_def)

lemma recorded_before_block:
  assumes "is_pending_record_of (wp_executionId (job_payload job)) c"
  shows "recorded_before [c, Logged lvl m meta, AddedWebhookJob q job]"
  using assms unfolding recorded_before_iff
  by (auto simp: less_Suc_eq nth_Cons is_pending_record_of_def split: nat.splits)

lemma record_and_enqueue_ordered:
  "io_pres (ordered_step sv) (record_and_enqueue sv d a t aid p au)"
  unfolding io_pres_def
proof
  fix w
  obtain r w' where run: "record_and_enqueue sv d a t aid p au w = (r, w')"
    by (cases "record_and_enqueue sv d a t aid p au w")
  let ?rec = "execution_data (v4 sv (uuids w)) p au t aid d"
  let ?lg = "Logged LDebug (msg_created (v4 sv (uuids w)) p aid) []"
  from record_and_enqueue_cases [OF run]
  consider (none) "trace w' = trace w" "uuids w' = Suc (uuids w)"
    | (rec) "trace w' = trace w @ [CreatedExecution ?rec, ?lg]"
        "uuids w' \<in> {Suc (uuids w), Suc (Suc (uuids w))}"
    | (job) job w1 w2 where
        "trace w' = trace w @ [CreatedExecution ?rec, ?lg, AddedWebhookJob WebhookQueue job]"
        "uuids w' = Suc (Suc (uuids w))"
        "webhook_job sv d a p au (v4 sv (uuids w)) w1 = (Inr job, w2)"
    by blast
  then have "ordered_step sv w w'"
  proof cases
    case none
    then have "quiet w w'" by (simp add: quiet_def)
    then show ?thesis by (rule quiet_ordered)
  next
    case rec
    have "recorded_before [CreatedExecution ?rec, ?lg]"
      by (simp add: recorded_before_no_jobs)
    moreover have "created_ids [CreatedExecution ?rec, ?lg] = map (v4 sv) [uuids w]"
      by (simp add: execution_data_simps)
    moreover have "set [uuids w] \<subseteq> {uuids w..<uuids w'}" "uuids w \<le> uuids w'"
      using rec(2) by auto
    ultimately show ?thesis
      unfolding ordered_step_def using rec(1)
      by (intro conjI exI [of _ "[CreatedExecution ?rec, ?lg]"] exI [of _ "[uuids w]"]) simp_all
  next
    case job
    from webhook_job_result [OF job(3)]
    have "wp_executionId (job_payload job) = v4 sv (uuids w)" by auto
    then have "is_pending_record_of (wp_executionId (job_payload job)) (CreatedExecution ?rec)"
      by (simp add: is_pending_record_of_def execution_data_simps)
    then have "recorded_before [CreatedExecution ?rec, ?lg, AddedWebhookJob WebhookQueue job]"
      by (rule recorded_before_block)
    moreover have "created_ids [CreatedExecution ?rec, ?lg, AddedWebhookJob WebhookQueue job]
        = map (v4 sv) [uuids w]"
      by (simp add: execution_data_simps)
    moreover have "set [uuids w] \<subseteq> {uuids w..<uuids w'}" "uuids w \<le> uuids w'"
      using job(2) by auto
    ultimately show ?thesis
      unfolding ordered_step_def using job(1)
      by (intro conjI exI [of _ "[CreatedExecution ?rec, ?lg, AddedWebhookJob WebhookQueue job]"]
          exI [of _ "[uuids w]"]) simp_all
  qed
  with run show "ordered_step sv w (snd (record_and_enqueue sv d a t aid p au w))" by simp
qed


lemma io_pres_cond: "io_pres R m \<Longrightarrow> io_pres R n \<Longrightarrow> io_pres R (if c then m else n)"
  by simp

lemma for_triggers_pres:
  assumes refl: "reflp R"
    and trans: "transp R"
    and q: "\<And>w w'. quiet w w' \<Longrightarrow> R w w'"
    and enq: "\<And>t aid au. io_pres R
        (record_and_enqueue sv (ev_dataset ev) (ev_action ev) t aid (ev_projectId ev) au)"
  shows "io_pres R (for_triggers sv ev ts)"
proof -
  note bind = io_pres_bind [OF trans]
  note catch = io_pres_try_catch [OF trans]
  have log: "io_pres R (logger lvl msg meta)" for lvl msg meta
    using quiet_logger by (rule io_pres_mono [rotated]) (rule q)
  have thr: "io_pres R (io_throw e :: unit io)" for e
    by (rule io_pres_throw) (rule refl)
  have enqueue: "io_pres R
      (enqueueAutomationAction sv (ev_dataset ev) (ev_action ev) t aid (ev_projectId ev))" for t aid
    unfolding enqueueAutomationAction_eq
  proof (rule bind)
    show "io_pres R (call_getAutomations sv (ev_projectId ev) aid)"
      using quiet_getAutomations by (rule io_pres_mono [rotated]) (rule q)
  next
    fix automations
    show "io_pres R (if length automations \<noteq> 1
        then io_throw (InternalServerError (msg_expected_one aid (length automations)))
        else record_and_enqueue sv (ev_dataset ev) (ev_action ev) t aid (ev_projectId ev)
               (au_id (automations ! 0)))"
      by (rule io_pres_cond) (rule thr, rule enq)
  qed
  have dispatch: "io_pres R (dispatch_action sv ev t aid)" for t aid
    unfolding dispatch_action_def
  proof (rule bind)
    show "io_pres R (call_getActionById sv (ev_projectId ev) aid)"
      using quiet_getActionById by (rule io_pres_mono [rotated]) (rule q)
  next
    fix actionConfig
    show "io_pres R (case actionConfig of
        None \<Rightarrow> logger LError (msg_action_not_found aid) []
      | Some x \<Rightarrow> enqueueAutomationAction sv (ev_dataset ev) (ev_action ev) (tr_id t) aid
          (ev_projectId ev))"
      by (cases actionConfig) (simp_all add: log enqueue)
  qed
  have body: "io_pres R (trigger_body sv ev t)" for t
    unfolding trigger_body_def Let_def
  proof (rule bind)
    show "io_pres R (io_of (evaluateFilter sv
        \<lparr>ed_dataset = ev_dataset ev, ed_action = ev_action ev\<rparr> (tr_filter t) fieldMapper))"
      by (rule io_pres_of) (rule refl)
  next
    fix eventMatches
    have "io_pres R (io_bind (logger LDebug (msg_matches t) (event_meta ev))
        (\<lambda>_. if length (tr_actionIds t) \<noteq> 1
             then io_bind (logger LDebug (msg_not_one_action t) [])
                    (\<lambda>_. io_throw (InternalServerError (msg_not_one_action t)))
             else dispatch_action sv ev t (tr_actionIds t ! 0)))"
      by (intro bind log io_pres_cond dispatch thr)
    then show "io_pres R (if \<not> eventMatches
        then logger LDebug (msg_no_match t) (event_meta ev)
        else io_bind (logger LDebug (msg_matches t) (event_meta ev))
          (\<lambda>_. if length (tr_actionIds t) \<noteq> 1
               then io_bind (logger LDebug (msg_not_one_action t) [])
                      (\<lambda>_. io_throw (InternalServerError (msg_not_one_action t)))
               else dispatch_action sv ev t (tr_actionIds t ! 0)))"
      by (intro io_pres_cond log)
  qed
  have one: "io_pres R (process_trigger sv ev t)" for t
    unfolding process_trigger_def by (rule catch) (rule body, rule log)
  show ?thesis
  proof (induction ts)
    case Nil
    show ?case by (simp add: io_pres_return refl)
  next
    case (Cons t ts)
    show ?case by (simp, rule bind) (rule one, rule Cons.IH)
  qed
qed

lemma processor_pres:
  assumes refl: "reflp R"
    and trans: "transp R"
    and q: "\<And>w w'. quiet w w' \<Longrightarrow> R w w'"
    and enq: "\<And>t aid au. io_pres R
        (record_and_enqueue sv (ev_dataset ev) (ev_action ev) t aid (ev_projectId ev) au)"
  shows "io_pres R (datasetVersionProcessor sv ev)"
proof -
  note bind = io_pres_bind [OF trans]
  note catch = io_pres_try_catch [OF trans]
  have log: "io_pres R (logger lvl msg meta)" for lvl msg meta
    using quiet_logger by (rule io_pres_mono [rotated]) (rule q)
  have thr: "io_pres R (io_throw e :: unit io)" for e
    by (rule io_pres_throw) (rule refl)
  have loop: "io_pres R (for_triggers sv ev ts)" for ts
    using refl trans q enq by (rule for_triggers_pres)
  show ?thesis
    unfolding datasetVersionProcessor_def
  proof (rule catch)
    show "io_pres R (io_bind (logger LInfo (msg_processing ev) [(''event'', JStr (JSON_stringify sv ev))])
        (\<lambda>_. io_bind (call_getTriggerConfigurations sv (ev_projectId ev) Dataset ACTIVE)
          (\<lambda>triggers. io_bind (logger LDebug (msg_found (length triggers)) (event_meta ev))
            (\<lambda>_. for_triggers sv ev triggers))))"
    proof (intro bind log loop)
      show "io_pres R (call_getTriggerConfigurations sv (ev_projectId ev) Dataset ACTIVE)"
        using quiet_getTriggerConfigurations by (rule io_pres_mono [rotated]) (rule q)
    qed
  next
    fix err
    show "io_pres R (io_bind (logger LError (msg_event_error sv ev err) [])
        (\<lambda>_. io_throw err :: unit io))"
      by (rule bind) (rule log, rule thr)
  qed
qed

lemma processor_ordered: "io_pres (ordered_step sv) (datasetVersionProcessor sv ev)"
  by (rule processor_pres)
    (rule reflp_ordered_step, rule transp_ordered_step, erule quiet_ordered,
      rule record_and_enqueue_ordered)


lemma sorted_less_distinct: "sorted_wrt (<) (ks :: nat list) \<Longrightarrow> distinct ks"
  by (induction ks) auto



lemma process_trigger_cases:
  "process_trigger sv ev t w =
     (case trigger_body sv ev t w of
        (Inl e, w1) \<Rightarrow> (Inr (), emit (Logged LError (msg_trigger_error sv t ev e) []) w1)
      | (Inr u, w1) \<Rightarrow> (Inr (), w1))"
  by (simp add: process_trigger_def try_catch_def logger_def split: prod.splits sum.splits)

lemma process_trigger_returns: "fst (process_trigger sv ev t w) = Inr ()"
  by (simp add: process_trigger_cases split: prod.splits sum.splits)

lemma for_triggers_Cons:
  "for_triggers sv ev (t # ts) w = for_triggers sv ev ts (snd (process_trigger sv ev t w))"
  using process_trigger_returns [of sv ev t w]
  by (cases "process_trigger sv ev t w") (simp add: io_bind_def)

lemma for_triggers_returns: "fst (for_triggers sv ev ts w) = Inr ()"
  by (induction ts arbitrary: w) (simp_all add: io_return_def for_triggers_Cons del: for_triggers.simps(2))

lemma for_triggers_append:
  "for_triggers sv ev (xs @ ys) w = for_triggers sv ev ys (snd (for_triggers sv ev xs w))"
  by (induction xs arbitrary: w) (simp_all add: io_return_def for_triggers_Cons del: for_triggers.simps(2))


lemma processor_lookup:
  "datasetVersionProcessor sv ev w =
     (let w1 = emit (Logged LInfo (msg_processing ev) [(''event'', JStr (JSON_stringify sv ev))]) w;
          w2 = emit (CalledGetTriggerConfigurations (ev_projectId ev) Dataset ACTIVE) w1
      in case getTriggerConfigurations sv w1 (ev_projectId ev) Dataset ACTIVE of
           Inl e \<Rightarrow> (Inl e, emit (Logged LError (msg_event_error sv ev e) []) w2)
         | Inr triggers \<Rightarrow>
             (Inr (), snd (for_triggers sv ev triggers
                (emit (Logged LDebug (msg_found (length triggers)) (event_meta ev)) w2))))"
proof (cases "getTriggerConfigurations sv
    (emit (Logged LInfo (msg_processing ev) [(''event'', JStr (JSON_stringify sv ev))]) w)
    (ev_projectId ev) Dataset ACTIVE")
  case (Inl e)
  then show ?thesis
    by (simp add: datasetVersionProcessor_def try_catch_def io_bind_def logger_def
        call_getTriggerConfigurations_def io_throw_def Let_def)
next
  case (Inr triggers)
  let ?w3 = "emit (Logged LDebug (msg_found (length triggers)) (event_meta ev))
    (emit (CalledGetTriggerConfigurations (ev_projectId ev) Dataset ACTIVE)
      (emit (Logged LInfo (msg_processing ev) [(''event'', JStr (JSON_stringify sv ev))]) w))"
  obtain r w' where loop: "for_triggers sv ev triggers ?w3 = (r, w')"
    by (cases "for_triggers sv ev triggers ?w3")
  with for_triggers_returns [of sv ev triggers ?w3] have "r = Inr ()" by simp
  with Inr loop show ?thesis
    by (simp add: datasetVersionProcessor_def try_catch_def io_bind_def logger_def
        call_getTriggerConfigurations_def Let_def)
qed



section \<open>Lemmas about the example configurations\<close>

lemma inj_example_v4: "inj (v4 (example_services ts))"
  by (auto simp: example_services_def inj_def dest: show_nat_inj)

section \<open>Lemmas about the publisher\<close>



section \<open>The claims\<close>

text \<open>
  Claim C1. In every run of the change event processor, whatever the stores, the queue
  and the filter service answer: each webhook job added to the webhook queue is
  preceded, in the same run, by the creation of an execution record whose identifier is
  the job's \<open>executionId\<close> and whose status is \<open>PENDING\<close>. When \<open>v4\<close> never repeats an
  identifier, the execution records of the run have pairwise different identifiers, none
  of them handed out before the run.
\<close>

theorem execution_recorded_before_webhook_job:
  assumes "datasetVersionProcessor sv event w = (r, w')"
  shows "\<exists>added. trace w' = trace w @ added
    \<and> (\<forall>i<length added. \<forall>q job. added ! i = AddedWebhookJob q job \<longrightarrow>
          (\<exists>j<i. \<exists>rec. added ! j = CreatedExecution rec
              \<and> ex_id rec = wp_executionId (job_payload job) \<and> ex_status rec = PENDING))
    \<and> (inj (v4 sv) \<longrightarrow> distinct (created_ids added)
          \<and> set (created_ids added) \<inter> v4 sv ` {..<uuids w} = {})"
proof -
  from processor_ordered assms have "ordered_step sv w w'"
    by (rule io_presD)
  then obtain added ks where a: "trace w' = trace w @ added" "recorded_before added"
    "created_ids added = map (v4 sv) ks" "sorted_wrt (<) ks" "set ks \<subseteq> {uuids w..<uuids w'}"
    unfolding ordered_step_def by blast
  have 1: "\<exists>j<i. \<exists>rec. added ! j = CreatedExecution rec
      \<and> ex_id rec = wp_executionId (job_payload job) \<and> ex_status rec = PENDING"
    if "i < length added" "added ! i = AddedWebhookJob q job" for i q job
  proof -
    from a(2) that obtain j where "j < i"
      "is_pending_record_of (wp_executionId (job_payload job)) (added ! j)"
      unfolding recorded_before_iff by blast
    then show ?thesis
      by (cases "added ! j") (auto simp: is_pending_record_of_def)
  qed
  have 2: "distinct (created_ids added) \<and> set (created_ids added) \<inter> v4 sv ` {..<uuids w} = {}"
    if inj: "inj (v4 sv)"
  proof
    from a(4) have "distinct ks" by (rule sorted_less_distinct)
    with inj a(3) show "distinct (created_ids added)"
      by (simp add: distinct_map inj_on_def inj_def)
    show "set (created_ids added) \<inter> v4 sv ` {..<uuids w} = {}"
    proof (rule ccontr)
      assume "set (created_ids added) \<inter> v4 sv ` {..<uuids w} \<noteq> {}"
      then obtain k n where kn: "k \<in> set ks" "n < uuids w" "v4 sv k = v4 sv n"
        using a(3) by auto
      from kn(1) a(5) have "uuids w \<le> k" by auto
      moreover from inj kn(3) have "k = n" by (simp add: inj_def)
      ultimately show False using kn(2) by simp
    qed
  qed
  from a(1) 1 2 show ?thesis by blast
qed

theorem execution_recorded_before_webhook_job_witness:
  "inj (v4 (example_services [trigger_on_update]))
   \<and> length (webhook_jobs (trace (snd (datasetVersionProcessor
         (example_services [trigger_on_update]) example_event initial_world)))) = 1
   \<and> (\<exists>added.
        trace (snd (datasetVersionProcessor (example_services [trigger_on_update])
                      example_event initial_world)) = trace initial_world @ added
        \<and> (\<forall>i<length added. \<forall>q job. added ! i = AddedWebhookJob q job \<longrightarrow>
              (\<exists>j<i. \<exists>rec. added ! j = CreatedExecution rec
                  \<and> ex_id rec = wp_executionId (job_payload job) \<and> ex_status rec = PENDING))
        \<and> distinct (created_ids added)
        \<and> set (created_ids added)
              \<inter> v4 (example_services [trigger_on_update]) ` {..<uuids initial_world} = {})"
proof -
  let ?sv = "example_services [trigger_on_update]"
  let ?run = "datasetVersionProcessor ?sv example_event initial_world"
  have inj: "inj (v4 ?sv)" by (rule inj_example_v4)
  have jobs: "length (webhook_jobs (trace (snd ?run))) = 1" by code_simp
  have "?run = (fst ?run, snd ?run)" by simp
  from execution_recorded_before_webhook_job [OF this] inj jobs
  show ?thesis by blast
qed



text \<open>
  Claim C3. An exception raised in the iteration of one trigger (by the filter service,
  a store, the queue, the schema parser, or the processor's own checks) is caught and
  logged by that iteration, which then returns normally; the loop therefore runs the
  iteration of every trigger of the list in turn, each from the world the one before
  left, and never raises; and once the trigger lookup has succeeded the processor
  returns normally.
\<close>

theorem trigger_failures_are_isolated:
  "fst (process_trigger sv event trigger w) = Inr ()
   \<and> (\<forall>e w1. trigger_body sv event trigger w = (Inl e, w1) \<longrightarrow>
         process_trigger sv event trigger w =
           (Inr (), emit (Logged LError (msg_trigger_error sv trigger event e) []) w1))
   \<and> for_triggers sv event (before @ trigger # rest) w =
        for_triggers sv event rest
          (snd (process_trigger sv event trigger (snd (for_triggers sv event before w))))
   \<and> fst (for_triggers sv event triggers w) = Inr ()
   \<and> (\<forall>ts. getTriggerConfigurations sv
           (emit (Logged LInfo (msg_processing event)
                    [(''event'', JStr (JSON_stringify sv event))]) w)
           (ev_projectId event) Dataset ACTIVE = Inr ts \<longrightarrow>
         fst (datasetVersionProcessor sv event w) = Inr ())"
proof (intro conjI allI impI)
  show "fst (process_trigger sv event trigger w) = Inr ()"
    by (rule process_trigger_returns)
  show "process_trigger sv event trigger w =
      (Inr (), emit (Logged LError (msg_trigger_error sv trigger event e) []) w1)"
    if "trigger_body sv event trigger w = (Inl e, w1)" for e w1
    using that by (simp add: process_trigger_cases)
  show "for_triggers sv event (before @ trigger # rest) w =
        for_triggers sv event rest
          (snd (process_trigger sv event trigger (snd (for_triggers sv event before w))))"
    by (simp add: for_triggers_append for_triggers_Cons del: for_triggers.simps(2))
  show "fst (for_triggers sv event triggers w) = Inr ()"
    by (rule for_triggers_returns)
  show "fst (datasetVersionProcessor sv event w) = Inr ()"
    if "getTriggerConfigurations sv
           (emit (Logged LInfo (msg_processing event)
                    [(''event'', JStr (JSON_stringify sv event))]) w)
           (ev_projectId event) Dataset ACTIVE = Inr ts" for ts
    using that by (simp add: processor_lookup Let_def)
qed

theorem trigger_failures_are_isolated_witness:
  "fst (trigger_body (flaky_services [trigger_on_update, trigger_on_update]) example_event
          trigger_on_update initial_world) = Inl (Failure ''automation store unavailable'')
   \<and> process_trigger (flaky_services [trigger_on_update, trigger_on_update]) example_event
        trigger_on_update initial_world =
      (Inr (), emit (Logged LError
          (msg_trigger_error (flaky_services [trigger_on_update, trigger_on_update])
             trigger_on_update example_event (Failure ''automation store unavailable'')) [])
        (snd (trigger_body (flaky_services [trigger_on_update, trigger_on_update])
                example_event trigger_on_update initial_world)))
   \<and> fst (datasetVersionProcessor (flaky_services [trigger_on_update, trigger_on_update])
            example_event initial_world) = Inr ()
   \<and> created_ids (trace (snd (datasetVersionProcessor
        (flaky_services [trigger_on_update, trigger_on_update])
        example_event initial_world))) = [''uuid-0'']"
proof -
  let ?sv = "flaky_services [trigger_on_update, trigger_on_update]"
  let ?body = "trigger_body ?sv example_event trigger_on_update initial_world"
  have f: "fst ?body = Inl (Failure ''automation store unavailable'')"
    by code_simp
  then have b: "?body = (Inl (Failure ''automation store unavailable''), snd ?body)"
    by (simp add: prod_eq_iff)
  have l: "getTriggerConfigurations ?sv
           (emit (Logged LInfo (msg_processing example_event)
                    [(''event'', JStr (JSON_stringify ?sv example_event))]) initial_world)
           (ev_projectId example_event) Dataset ACTIVE
         = Inr [trigger_on_update, trigger_on_update]"
    by (simp add: flaky_services_def example_services_def)
  have c: "created_ids (trace (snd (datasetVersionProcessor ?sv example_event initial_world)))
      = [''uuid-0'']"
    by code_simp
  from trigger_failures_are_isolated [of ?sv example_event trigger_on_update initial_world]
    b l f c
  show ?thesis by blast
qed









text \<open>
  Claim C7. In the list \<open>parseHeaders\<close> returns, every pair marked secret has the empty
  string as its \<open>value\<close>. For a webhook action with display headers the list is the image
  of the entries, and the pair of a secret entry is its name, the empty \<open>value\<close>, the
  entry's value as \<open>displayValue\<close>, and both secret flags set: the \<open>value\<close> field of a
  secret pair does not depend on what is stored.
\<close>

theorem parseHeaders_hides_secret_values:
  "(\<forall>p \<in> set (parseHeaders automation). hp_isSecret p \<longrightarrow> hp_value p = [])
   \<and> (\<forall>a act config displayHeaders.
         automation = Some a \<and> au_action a = Some act \<and> act_type act = ''WEBHOOK''
         \<and> act_config act = Some config \<and> cfg_displayHeaders config = Some displayHeaders
         \<longrightarrow> parseHeaders automation = map header_pair_of displayHeaders)
   \<and> (ho_secret headerObj \<longrightarrow>
         header_pair_of (name, headerObj) =
           \<lparr> hp_name = name, hp_value = [], hp_displayValue = ho_value headerObj,
             hp_isSecret = True, hp_wasSecret = True \<rparr>)"
proof (intro conjI ballI allI impI)
  fix p
  assume "p \<in> set (parseHeaders automation)" and "hp_isSecret p"
  from this(1) obtain entry where "p = header_pair_of entry"
    using parseHeaders_image by blast
  with \<open>hp_isSecret p\<close> show "hp_value p = []"
    by (cases entry) (simp add: header_pair_of_def)
next
  fix a act config displayHeaders
  assume "automation = Some a \<and> au_action a = Some act \<and> act_type act = ''WEBHOOK''
         \<and> act_config act = Some config \<and> cfg_displayHeaders config = Some displayHeaders"
  then show "parseHeaders automation = map header_pair_of displayHeaders"
    by (rule parseHeaders_webhook)
next
  assume "ho_secret headerObj"
  then show "header_pair_of (name, headerObj) =
           \<lparr> hp_name = name, hp_value = [], hp_displayValue = ho_value headerObj,
             hp_isSecret = True, hp_wasSecret = True \<rparr>"
    by (simp add: header_pair_of_def)
qed

theorem parseHeaders_hides_secret_values_witness:
  "parseHeaders (Some example_automation) =
     [\<lparr> hp_name = ''x-token'', hp_value = [], hp_displayValue = ''tok-123'',
        hp_isSecret = True, hp_wasSecret = True \<rparr>,
      \<lparr> hp_name = ''x-team'', hp_value = ''evals'', hp_displayValue = ''evals'',
        hp_isSecret = False, hp_wasSecret = False \<rparr>]
   \<and> ho_secret \<lparr> ho_secret = True, ho_value = ''tok-123'' \<rparr>
   \<and> list_all (\<lambda>p. hp_isSecret p) (take 1 (parseHeaders (Some example_automation)))
   \<and> map hp_value (take 1 (parseHeaders (Some example_automation))) = [[]]"
proof -
  let ?dh = "[(''x-token'', \<lparr> ho_secret = True, ho_value = ''tok-123'' \<rparr>),
              (''x-team'', \<lparr> ho_secret = False, ho_value = ''evals'' \<rparr>)]"
  note inst = parseHeaders_hides_secret_values [of "Some example_automation"
      "\<lparr> ho_secret = True, ho_value = ''tok-123'' \<rparr>" "''x-token''"]
  have cfg: "Some example_automation = Some example_automation
      \<and> au_action example_automation = Some example_action
      \<and> act_type example_action = ''WEBHOOK''
      \<and> act_config example_action = Some \<lparr> cfg_url = Some ''https://example.test/hook'',
           cfg_displayHeaders = Some ?dh, cfg_apiVersion = Some [(''dataset'', ''v1'')] \<rparr>
      \<and> cfg_displayHeaders \<lparr> cfg_url = Some ''https://example.test/hook'',
           cfg_displayHeaders = Some ?dh, cfg_apiVersion = Some [(''dataset'', ''v1'')] \<rparr>
          = Some ?dh"
    by (simp add: example_automation_def example_action_def)
  with inst have 1: "parseHeaders (Some example_automation) = map header_pair_of ?dh"
    by blast
  from inst have 2: "header_pair_of (''x-token'', \<lparr> ho_secret = True, ho_value = ''tok-123'' \<rparr>)
      = \<lparr> hp_name = ''x-token'', hp_value = [], hp_displayValue = ''tok-123'',
          hp_isSecret = True, hp_wasSecret = True \<rparr>"
    by simp
  from 1 2 show ?thesis
    by (simp add: header_pair_of_def)
qed



text \<open>
  Claim C9. The field mapper of the dataset processor answers for the columns
  \<open>"action"\<close> and \<open>"Name"\<close> and returns undefined for every other column, whatever the
  event data; \<open>datasetActionFilterOptions\<close> offers one column, whose id is the lowercase
  \<open>"name"\<close>, and for that id the mapper returns undefined. Under the evaluator of the
  specification a filter with a condition on any column other than those two is false
  for every event.
\<close>

theorem fieldMapper_knows_action_and_Name_only:
  "(column \<noteq> ''action'' \<and> column \<noteq> ''Name'' \<longrightarrow> fieldMapper data column = None)
   \<and> fieldMapper data ''action'' = Some (JStr (ed_action data))
   \<and> fieldMapper data ''Name'' = Some (JStr (ds_name (ed_dataset data)))
   \<and> map col_id datasetActionFilterOptions = [''name'']
   \<and> fieldMapper data ''name'' = None
   \<and> ((\<exists>condition \<in> set predicate.
          fc_column condition \<noteq> ''action'' \<and> fc_column condition \<noteq> ''Name'')
        \<longrightarrow> \<not> evaluateFilter_spec data predicate fieldMapper)"
proof (intro conjI impI)
  show "fieldMapper data column = None" if "column \<noteq> ''action'' \<and> column \<noteq> ''Name''"
    using that by (simp add: fieldMapper_def)
  show "fieldMapper data ''action'' = Some (JStr (ed_action data))"
    by (simp add: fieldMapper_def)
  show "fieldMapper data ''Name'' = Some (JStr (ds_name (ed_dataset data)))"
    by (simp add: fieldMapper_def)
  show "map col_id datasetActionFilterOptions = [''name'']"
    by (simp add: datasetActionFilterOptions_def datasetsTableCols_def)
  show "fieldMapper data ''name'' = None"
    by (simp add: fieldMapper_def)
  show "\<not> evaluateFilter_spec data predicate fieldMapper"
    if "\<exists>condition \<in> set predicate.
          fc_column condition \<noteq> ''action'' \<and> fc_column condition \<noteq> ''Name''"
  proof -
    from that obtain c where c: "c \<in> set predicate"
      "fc_column c \<noteq> ''action''" "fc_column c \<noteq> ''Name''"
      by blast
    then have "fieldMapper data (fc_column c) = None"
      by (simp add: fieldMapper_def)
    with c(1) show ?thesis
      by (auto simp: evaluateFilter_spec_def list_all_iff intro!: bexI [of _ c])
  qed
qed

theorem fieldMapper_knows_action_and_Name_only_witness:
  "''name'' \<noteq> ''action'' \<and> ''name'' \<noteq> ''Name''
   \<and> fieldMapper \<lparr>ed_dataset = example_dataset, ed_action = ''updated''\<rparr> ''name'' = None
   \<and> ds_name example_dataset = ''eval-set''
   \<and> \<not> evaluateFilter_spec \<lparr>ed_dataset = example_dataset, ed_action = ''updated''\<rparr>
         [\<lparr> fc_column = ''name'', fc_operator = OpEquals, fc_value = JStr ''eval-set'' \<rparr>]
         fieldMapper
   \<and> evaluateFilter_spec \<lparr>ed_dataset = example_dataset, ed_action = ''updated''\<rparr>
         [\<lparr> fc_column = ''Name'', fc_operator = OpEquals, fc_value = JStr ''eval-set'' \<rparr>]
         fieldMapper"
proof -
  let ?data = "\<lparr>ed_dataset = example_dataset, ed_action = ''updated''\<rparr>"
  let ?c = "\<lparr> fc_column = ''name'', fc_operator = OpEquals, fc_value = JStr ''eval-set'' \<rparr>"
  have n: "''name'' \<noteq> ''action'' \<and> ''name'' \<noteq> ''Name''" by simp
  have ex: "\<exists>condition \<in> set [?c].
      fc_column condition \<noteq> ''action'' \<and> fc_column condition \<noteq> ''Name''"
    by simp
  have d: "ds_name example_dataset = ''eval-set''" by (simp add: example_dataset_def)
  have pos: "evaluateFilter_spec ?data
         [\<lparr> fc_column = ''Name'', fc_operator = OpEquals, fc_value = JStr ''eval-set'' \<rparr>]
         fieldMapper"
    by (simp add: evaluateFilter_spec_def fieldMapper_def condition_holds_def example_dataset_def)
  from fieldMapper_knows_action_and_Name_only [of "''name''" ?data "[?c]"] n ex d pos
  show ?thesis by blast
qed

text \<open>
  Claim C10. Called with a null dataset, the publisher returns normally at once, for
  every action kind and whatever the services would answer: the world is the one it
  was called in, so no dataset version was read, no change event was added, nothing was
  logged and no identifier was drawn.
\<close>

theorem null_dataset_is_ignored:
  "datasetChangeEventSourcing sv None action w = (Inr (), w)"
  by (simp add: datasetChangeEventSourcing_def io_return_def)

theorem null_dataset_is_ignored_witness:
  "datasetChangeEventSourcing unavailable_services None Deleted initial_world
     = (Inr (), initial_world)"
  using null_dataset_is_ignored [of unavailable_services Deleted initial_world] by simp

end
